theory Spec2Isabelle
  imports Complex_Main
begin

section \<open>Doubles and the C library\<close>

text \<open>
  The program computes on C \<open>double\<close>s. A double is a finite value, one of the two
  infinities, or a NaN. The finite values are modelled by the real they denote (the two
  zeros are one value: the program never inspects the sign of a zero). What the hardware
  and \<open>libm\<close> do beyond the rules for the special values is a parameter of the model, the
  \<open>machine\<close>: rounding of an exact finite result, and the elementary functions. Theorems
  stated for every machine hold for whatever the rounding is.
\<close>

datatype double = Fin real | PInf | NInf | NaN

datatype errno = ENONE | EDOM | ERANGE

record machine =
  rnd :: "real \<Rightarrow> double"
  strtod_conv :: "real \<Rightarrow> double \<times> errno"
  c_pow :: "double \<Rightarrow> double \<Rightarrow> double \<times> errno"
  c_sin :: "double \<Rightarrow> double"
  c_cos :: "double \<Rightarrow> double"
  c_tan :: "double \<Rightarrow> double"
  c_asin :: "double \<Rightarrow> double"
  c_acos :: "double \<Rightarrow> double"
  c_atan :: "double \<Rightarrow> double"
  c_sqrt :: "double \<Rightarrow> double"
  c_log :: "double \<Rightarrow> double"
  c_log10 :: "double \<Rightarrow> double"
  c_exp :: "double \<Rightarrow> double"
  c_lgamma :: "double \<Rightarrow> double"

fun isfinite :: "double \<Rightarrow> bool" where
  "isfinite (Fin x) = True"
| "isfinite d = False"

fun dneg :: "double \<Rightarrow> double" where
  "dneg (Fin x) = Fin (- x)"
| "dneg PInf = NInf"
| "dneg NInf = PInf"
| "dneg NaN = NaN"

fun dadd :: "machine \<Rightarrow> double \<Rightarrow> double \<Rightarrow> double" where
  "dadd M (Fin x) (Fin y) = rnd M (x + y)"
| "dadd M NaN b = NaN"
| "dadd M a NaN = NaN"
| "dadd M PInf NInf = NaN"
| "dadd M NInf PInf = NaN"
| "dadd M PInf b = PInf"
| "dadd M NInf b = NInf"
| "dadd M (Fin x) b = b"

definition dsub :: "machine \<Rightarrow> double \<Rightarrow> double \<Rightarrow> double" where
  "dsub M a b = dadd M a (dneg b)"

fun dmul :: "machine \<Rightarrow> double \<Rightarrow> double \<Rightarrow> double" where
  "dmul M (Fin x) (Fin y) = rnd M (x * y)"
| "dmul M NaN b = NaN"
| "dmul M a NaN = NaN"
| "dmul M (Fin x) b = (if x = 0 then NaN else if 0 < x then b else dneg b)"
| "dmul M a (Fin y) = (if y = 0 then NaN else if 0 < y then a else dneg a)"
| "dmul M PInf b = b"
| "dmul M NInf b = dneg b"

fun ddiv :: "machine \<Rightarrow> double \<Rightarrow> double \<Rightarrow> double" where
  "ddiv M (Fin x) (Fin y) =
     (if y = 0 then (if x = 0 then NaN else if 0 < x then PInf else NInf)
      else rnd M (x / y))"
| "ddiv M NaN b = NaN"
| "ddiv M a NaN = NaN"
| "ddiv M (Fin x) b = Fin 0"
| "ddiv M a (Fin y) = (if 0 \<le> y then a else dneg a)"
| "ddiv M a b = NaN"

text \<open>Comparisons: every comparison with a NaN is false.\<close>

fun dlt :: "double \<Rightarrow> double \<Rightarrow> bool" where
  "dlt (Fin x) (Fin y) = (x < y)"
| "dlt NaN b = False"
| "dlt a NaN = False"
| "dlt a NInf = False"
| "dlt PInf b = False"
| "dlt a b = True"

fun deq :: "double \<Rightarrow> double \<Rightarrow> bool" where
  "deq (Fin x) (Fin y) = (x = y)"
| "deq PInf PInf = True"
| "deq NInf NInf = True"
| "deq a b = False"

definition dle :: "double \<Rightarrow> double \<Rightarrow> bool" where
  "dle a b = (dlt a b \<or> deq a b)"

definition dgt :: "double \<Rightarrow> double \<Rightarrow> bool" where
  "dgt a b = dlt b a"

definition dge :: "double \<Rightarrow> double \<Rightarrow> bool" where
  "dge a b = dle b a"

fun fabs :: "double \<Rightarrow> double" where
  "fabs (Fin x) = Fin \<bar>x\<bar>"
| "fabs NaN = NaN"
| "fabs d = PInf"

fun c_floor :: "double \<Rightarrow> double" where
  "c_floor (Fin x) = Fin (of_int \<lfloor>x\<rfloor>)"
| "c_floor d = d"

fun c_ceil :: "double \<Rightarrow> double" where
  "c_ceil (Fin x) = Fin (of_int \<lceil>x\<rceil>)"
| "c_ceil d = d"

text \<open>An \<open>int\<close> converted to \<open>double\<close> is exact (an int has at most 32 bits).\<close>

definition of_c_int :: "int \<Rightarrow> double" where
  "of_c_int i = Fin (of_int i)"

text \<open>
  A decimal literal of the source that is no double itself (\<open>0.01\<close>, \<open>1e-9\<close>,
  \<open>M_PI\<close>) stands for the double the compiler rounds it to.
\<close>

definition lit :: "machine \<Rightarrow> real \<Rightarrow> double" where
  "lit M r = rnd M r"

definition M_PI :: "machine \<Rightarrow> double" where
  "M_PI M = lit M 3.14159265358979323846"

subsection \<open>The exact machine\<close>

text \<open>
  The exact machine computes every finite result exactly and overflows to an infinity
  beyond \<open>DBL_MAX\<close>. It is the machine of the worked examples. Its \<open>libm\<close> follows
  Annex F of the C standard on the special cases; \<open>lgamma\<close> is given on the positive
  integers, the only arguments the program passes to it.
\<close>

definition DBL_MAX :: real where
  "DBL_MAX = (2 - 1 / 2 ^ 52) * 2 ^ 1023"

definition rnd_exact :: "real \<Rightarrow> double" where
  "rnd_exact x = (if DBL_MAX < x then PInf else if x < - DBL_MAX then NInf else Fin x)"

definition conv_exact :: "real \<Rightarrow> double \<times> errno" where
  "conv_exact x = (rnd_exact x, if DBL_MAX < \<bar>x\<bar> then ERANGE else ENONE)"

definition is_integral :: "real \<Rightarrow> bool" where
  "is_integral x = (of_int \<lfloor>x\<rfloor> = x)"

definition ranged :: "real \<Rightarrow> double \<times> errno" where
  "ranged x = (rnd_exact x, if DBL_MAX < \<bar>x\<bar> then ERANGE else ENONE)"

fun pow_exact :: "double \<Rightarrow> double \<Rightarrow> double \<times> errno" where
  "pow_exact (Fin a) (Fin b) =
     (if is_integral b then
        (if 0 \<le> b then ranged (a ^ nat \<lfloor>b\<rfloor>)
         else if a = 0 then (PInf, ERANGE)
         else ranged (1 / a ^ nat \<lfloor>- b\<rfloor>))
      else if a < 0 then (NaN, EDOM)
      else if a = 0 then (if 0 < b then (Fin 0, ENONE) else (PInf, ERANGE))
      else ranged (a powr b))"
| "pow_exact NaN (Fin b) = (if b = 0 then (Fin 1, ENONE) else (NaN, ENONE))"
| "pow_exact (Fin a) NaN = (if a = 1 then (Fin 1, ENONE) else (NaN, ENONE))"
| "pow_exact (Fin a) PInf =
     (if \<bar>a\<bar> < 1 then (Fin 0, ENONE) else if \<bar>a\<bar> = 1 then (Fin 1, ENONE) else (PInf, ENONE))"
| "pow_exact (Fin a) NInf =
     (if \<bar>a\<bar> < 1 then (PInf, ENONE) else if \<bar>a\<bar> = 1 then (Fin 1, ENONE) else (Fin 0, ENONE))"
| "pow_exact PInf (Fin b) =
     (if b = 0 then (Fin 1, ENONE) else if b < 0 then (Fin 0, ENONE) else (PInf, ENONE))"
| "pow_exact NInf (Fin b) =
     (if b = 0 then (Fin 1, ENONE) else if b < 0 then (Fin 0, ENONE)
      else if is_integral b \<and> odd \<lfloor>b\<rfloor> then (NInf, ENONE) else (PInf, ENONE))"
| "pow_exact PInf PInf = (PInf, ENONE)"
| "pow_exact NInf PInf = (PInf, ENONE)"
| "pow_exact PInf NInf = (Fin 0, ENONE)"
| "pow_exact NInf NInf = (Fin 0, ENONE)"
| "pow_exact a b = (NaN, ENONE)"

fun sin_exact :: "double \<Rightarrow> double" where
  "sin_exact (Fin x) = Fin (sin x)"
| "sin_exact d = NaN"

fun cos_exact :: "double \<Rightarrow> double" where
  "cos_exact (Fin x) = Fin (cos x)"
| "cos_exact d = NaN"

fun tan_exact :: "double \<Rightarrow> double" where
  "tan_exact (Fin x) = rnd_exact (tan x)"
| "tan_exact d = NaN"

fun asin_exact :: "double \<Rightarrow> double" where
  "asin_exact (Fin x) = (if \<bar>x\<bar> \<le> 1 then Fin (arcsin x) else NaN)"
| "asin_exact d = NaN"

fun acos_exact :: "double \<Rightarrow> double" where
  "acos_exact (Fin x) = (if \<bar>x\<bar> \<le> 1 then Fin (arccos x) else NaN)"
| "acos_exact d = NaN"

fun atan_exact :: "double \<Rightarrow> double" where
  "atan_exact (Fin x) = Fin (arctan x)"
| "atan_exact PInf = Fin (pi / 2)"
| "atan_exact NInf = Fin (- pi / 2)"
| "atan_exact NaN = NaN"

fun sqrt_exact :: "double \<Rightarrow> double" where
  "sqrt_exact (Fin x) = (if x < 0 then NaN else Fin (sqrt x))"
| "sqrt_exact PInf = PInf"
| "sqrt_exact d = NaN"

fun log_exact :: "double \<Rightarrow> double" where
  "log_exact (Fin x) = (if x < 0 then NaN else if x = 0 then NInf else Fin (ln x))"
| "log_exact PInf = PInf"
| "log_exact d = NaN"

fun log10_exact :: "double \<Rightarrow> double" where
  "log10_exact (Fin x) = (if x < 0 then NaN else if x = 0 then NInf else Fin (log 10 x))"
| "log10_exact PInf = PInf"
| "log10_exact d = NaN"

fun exp_exact :: "double \<Rightarrow> double" where
  "exp_exact (Fin x) = rnd_exact (exp x)"
| "exp_exact PInf = PInf"
| "exp_exact NInf = Fin 0"
| "exp_exact NaN = NaN"

fun lgamma_exact :: "double \<Rightarrow> double" where
  "lgamma_exact (Fin x) =
     (if is_integral x \<and> 1 \<le> x then Fin (ln (fact (nat \<lfloor>x\<rfloor> - 1))) else NaN)"
| "lgamma_exact PInf = PInf"
| "lgamma_exact NInf = PInf"
| "lgamma_exact NaN = NaN"

definition exact :: machine where
  "exact = \<lparr> rnd = rnd_exact, strtod_conv = conv_exact, c_pow = pow_exact,
     c_sin = sin_exact, c_cos = cos_exact, c_tan = tan_exact,
     c_asin = asin_exact, c_acos = acos_exact, c_atan = atan_exact,
     c_sqrt = sqrt_exact, c_log = log_exact, c_log10 = log10_exact,
     c_exp = exp_exact, c_lgamma = lgamma_exact \<rparr>"

section \<open>Configuration and global state\<close>

definition MAX_STACK :: nat where
  "MAX_STACK = 1024"

definition MAX_VARS :: nat where
  "MAX_VARS = 64"

definition NAME_LEN :: nat where
  "NAME_LEN = 16"

datatype AngleMode = MODE_RAD | MODE_DEG

text \<open>
  One slot of the variable table \<open>g_vars\<close>: \<open>char name[NAME_LEN]\<close> is the string
  before the first NUL (at most 15 characters), \<open>value\<close> and \<open>in_use\<close> as in the
  source.
\<close>

record VarItem =
  var_name :: string
  var_value :: double
  in_use :: bool

text \<open>The globals the expression engine reads and writes.\<close>

record calc_state =
  g_mode :: AngleMode
  g_last_result :: double
  g_vars :: "VarItem list"

definition to_radian :: "machine \<Rightarrow> calc_state \<Rightarrow> double \<Rightarrow> double" where
  "to_radian M st x =
     (if g_mode st = MODE_DEG then ddiv M (dmul M x (M_PI M)) (Fin 180) else x)"

definition from_radian :: "machine \<Rightarrow> calc_state \<Rightarrow> double \<Rightarrow> double" where
  "from_radian M st x =
     (if g_mode st = MODE_DEG then ddiv M (dmul M x (Fin 180)) (M_PI M) else x)"

subsection \<open>The variable table\<close>

text \<open>\<open>var_find_index\<close>: the first slot in use with that name; \<open>None\<close> for \<open>-1\<close>.\<close>

fun var_find_index :: "VarItem list \<Rightarrow> string \<Rightarrow> nat option" where
  "var_find_index [] nm = None"
| "var_find_index (v # vs) nm =
     (if in_use v \<and> var_name v = nm then Some 0
      else map_option Suc (var_find_index vs nm))"

text \<open>The second loop of \<open>var_set\<close>: the first slot that is not in use.\<close>

fun first_free :: "VarItem list \<Rightarrow> nat option" where
  "first_free [] = None"
| "first_free (v # vs) = (if \<not> in_use v then Some 0 else map_option Suc (first_free vs))"

text \<open>
  \<open>var_set\<close> returns its result (1 or 0, here a bool) and the table. A new name is
  stored with \<open>strncpy(..., NAME_LEN-1)\<close>: its first 15 characters.
\<close>

definition var_set :: "VarItem list \<Rightarrow> string \<Rightarrow> double \<Rightarrow> bool \<times> VarItem list" where
  "var_set vs nm v =
     (case var_find_index vs nm of
        Some i \<Rightarrow> (True, vs[i := (vs ! i)\<lparr>var_value := v\<rparr>])
      | None \<Rightarrow>
          (case first_free vs of
             Some i \<Rightarrow> (True, vs[i := \<lparr>var_name = take (NAME_LEN - 1) nm, var_value = v,
                                       in_use = True\<rparr>])
           | None \<Rightarrow> (False, vs)))"

text \<open>\<open>var_get\<close>: \<open>Some\<close> the value for result 1, \<open>None\<close> for result 0.\<close>

definition var_get :: "VarItem list \<Rightarrow> string \<Rightarrow> double option" where
  "var_get vs nm = map_option (\<lambda>i. var_value (vs ! i)) (var_find_index vs nm)"

definition var_del :: "VarItem list \<Rightarrow> string \<Rightarrow> bool \<times> VarItem list" where
  "var_del vs nm =
     (case var_find_index vs nm of
        Some i \<Rightarrow> (True, vs[i := (vs ! i)\<lparr>in_use := False, var_name := []\<rparr>])
      | None \<Rightarrow> (False, vs))"

text \<open>The table at program start (static storage is zeroed), then \<open>vars_init_defaults\<close>.\<close>

definition g_vars_zero :: "VarItem list" where
  "g_vars_zero = replicate MAX_VARS \<lparr>var_name = [], var_value = Fin 0, in_use = False\<rparr>"

definition vars_init_defaults :: "machine \<Rightarrow> VarItem list \<Rightarrow> VarItem list" where
  "vars_init_defaults M vs =
     (let vs1 = snd (var_set vs ''pi'' (M_PI M));
          vs2 = snd (var_set vs1 ''e'' (c_exp M (Fin 1)))
      in snd (var_set vs2 ''ans'' (Fin 0)))"

definition startup :: "machine \<Rightarrow> calc_state" where
  "startup M = \<lparr>g_mode = MODE_RAD, g_last_result = Fin 0,
                 g_vars = vars_init_defaults M g_vars_zero\<rparr>"

section \<open>Tokens\<close>

datatype CalcTokType =
  CALC_T_NUMBER | CALC_T_OPERATOR | CALC_T_LPAREN | CALC_T_RPAREN
  | CALC_T_FUNC | CALC_T_COMMA | CALC_T_IDENT

datatype OpKind =
  OP_ADD | OP_SUB | OP_MUL | OP_DIV | OP_POW | OP_UNARY_MINUS | OP_FACT | OP_PERCENT

text \<open>
  \<open>CalcToken\<close> is a struct used as a tagged union: \<open>type\<close> says which of \<open>value\<close>,
  \<open>op\<close>, \<open>name\<close> and \<open>arity\<close> were written, and only those are read.
\<close>

datatype CalcToken =
  Number double
  | Operator OpKind
  | LParen
  | RParen
  | Func string int
  | Comma
  | Ident string

fun tok_type :: "CalcToken \<Rightarrow> CalcTokType" where
  "tok_type (Number v) = CALC_T_NUMBER"
| "tok_type (Operator op) = CALC_T_OPERATOR"
| "tok_type LParen = CALC_T_LPAREN"
| "tok_type RParen = CALC_T_RPAREN"
| "tok_type (Func nm ar) = CALC_T_FUNC"
| "tok_type Comma = CALC_T_COMMA"
| "tok_type (Ident nm) = CALC_T_IDENT"

text \<open>Every message the engine writes to \<open>errmsg\<close> is one error value.\<close>

datatype calc_error =
  InvalidNumber
  | NumberOutOfRange
  | UnrecognizedCharacter char
  | MismatchedComma
  | MismatchedParen
  | StackOverflow
  | UndefinedVariable string
  | MissingOperand
  | MissingOperandUnary
  | MissingOperandBinary
  | FactorialDomainError
  | DivisionByZero
  | PowDomainOrRangeError
  | UnknownOperation
  | FuncMissingArgument
  | SqrtDomainError
  | LnDomainError
  | Log10DomainError
  | UnknownFunction
  | UnknownMultiArgFunction
  | PowNeedsTwoArgs
  | PowFuncDomainOrRangeError
  | UnsupportedArity
  | IllegalRpnToken
  | MalformedExpression nat
  | ZeroOrNonFiniteDerivative double
  | DidNotConverge int

definition is_alpha :: "char \<Rightarrow> bool" where
  "is_alpha c = (c \<in> set ''abcdefghijklmnopqrstuvwxyzABCDEFGHIJKLMNOPQRSTUVWXYZ'')"

definition is_digit :: "char \<Rightarrow> bool" where
  "is_digit c = (c \<in> set ''0123456789'')"

definition to_lower :: "char \<Rightarrow> char" where
  "to_lower c =
     (case map_of (zip ''ABCDEFGHIJKLMNOPQRSTUVWXYZ'' ''abcdefghijklmnopqrstuvwxyz'') c of
        Some l \<Rightarrow> l
      | None \<Rightarrow> c)"

definition is_func_char_local :: "char \<Rightarrow> bool" where
  "is_func_char_local c = (is_alpha c \<or> c = CHR ''_'')"

text \<open>\<open>is_func_name_local\<close>: \<open>Some\<close> the arity written to \<open>*ar\<close>, \<open>None\<close> for 0.\<close>

definition is_func_name_local :: "string \<Rightarrow> int option" where
  "is_func_name_local s =
     (if s = ''sin'' \<or> s = ''cos'' \<or> s = ''tan'' \<or> s = ''sqrt'' \<or> s = ''ln'' \<or> s = ''log''
         \<or> s = ''abs'' \<or> s = ''exp'' \<or> s = ''asin'' \<or> s = ''acos'' \<or> s = ''atan'' then Some 1
      else if s = ''pow'' then Some 2
      else None)"

fun precedence_local :: "OpKind \<Rightarrow> int" where
  "precedence_local OP_FACT = 5"
| "precedence_local OP_PERCENT = 5"
| "precedence_local OP_UNARY_MINUS = 4"
| "precedence_local OP_POW = 3"
| "precedence_local OP_MUL = 2"
| "precedence_local OP_DIV = 2"
| "precedence_local OP_ADD = 1"
| "precedence_local OP_SUB = 1"

definition is_right_assoc_local :: "OpKind \<Rightarrow> bool" where
  "is_right_assoc_local op = (op = OP_POW \<or> op = OP_UNARY_MINUS)"

definition is_postfix_local :: "OpKind \<Rightarrow> bool" where
  "is_postfix_local op = (op = OP_FACT \<or> op = OP_PERCENT)"

definition round_local :: "machine \<Rightarrow> double \<Rightarrow> double" where
  "round_local M x =
     (if dge x (Fin 0) then c_floor (dadd M x (Fin 0.5)) else c_ceil (dsub M x (Fin 0.5)))"

definition nearly_integer_local :: "machine \<Rightarrow> double \<Rightarrow> bool" where
  "nearly_integer_local M x = dlt (fabs (dsub M x (round_local M x))) (lit M (1 / 10 ^ 9))"

definition factorial_ok_local :: "machine \<Rightarrow> double \<Rightarrow> bool" where
  "factorial_ok_local M x =
     (if \<not> nearly_integer_local M x then False
      else if dlt x (Fin 0) \<or> dgt x (Fin 170) then False
      else True)"

definition factorial_val_local :: "machine \<Rightarrow> double \<Rightarrow> double" where
  "factorial_val_local M x =
     (let n = round_local M x in c_exp M (c_lgamma M (dadd M n (Fin 1))))"

section \<open>The lexer\<close>

text \<open>
  \<open>strtod\<close> on the decimal literals the lexer hands it (the text starts with a digit or
  a point): digits, an optional point and digits, and an exponent when digits follow the
  \<open>e\<close>. The result is the value, \<open>errno\<close>, and the number of characters read; \<open>None\<close>
  when nothing was converted (\<open>endp\<close> equal to the start). Turning the decimal value
  into a double is the machine's.
\<close>

definition digit_val :: "char \<Rightarrow> nat" where
  "digit_val c = of_char c - 48"

definition digits_val :: "string \<Rightarrow> nat" where
  "digits_val ds = foldl (\<lambda>a c. 10 * a + digit_val c) 0 ds"

definition pow10 :: "int \<Rightarrow> real" where
  "pow10 e = (if 0 \<le> e then 10 ^ nat e else 1 / 10 ^ nat (- e))"

text \<open>The exponent part after the mantissa: its value and its length (0 and 0 for none).\<close>

definition exponent_part :: "string \<Rightarrow> int \<times> nat" where
  "exponent_part s =
     (case s of
        [] \<Rightarrow> (0, 0)
      | c # r \<Rightarrow>
          if c = CHR ''e'' \<or> c = CHR ''E'' then
            (let sg = (case r of [] \<Rightarrow> [] | d # r' \<Rightarrow>
                         if d = CHR ''+'' \<or> d = CHR ''-'' then [d] else []);
                 ds = takeWhile is_digit (drop (length sg) r)
             in if ds = [] then (0, 0)
                else ((if sg = ''-'' then - int (digits_val ds) else int (digits_val ds)),
                      1 + length sg + length ds))
          else (0, 0))"

definition strtod :: "machine \<Rightarrow> string \<Rightarrow> (double \<times> errno \<times> nat) option" where
  "strtod M s =
     (let ip = takeWhile is_digit s;
          r1 = drop (length ip) s;
          dot = (case r1 of [] \<Rightarrow> False | c # r \<Rightarrow> c = CHR ''.'');
          fp = (if dot then takeWhile is_digit (tl r1) else []);
          m = length ip + (if dot then 1 + length fp else 0)
      in if ip = [] \<and> fp = [] then None
         else
           (let (e, k) = exponent_part (drop m s);
                (v, en) = strtod_conv M
                            (real (digits_val (ip @ fp)) / 10 ^ length fp * pow10 e)
            in Some (v, en, m + k)))"

text \<open>
  The identifier branch: the inner loop copies at most \<open>NAME_LEN-1\<close> characters of the
  run of letters and underscores, lower-cased, and leaves \<open>i\<close> behind the last one
  copied.
\<close>

definition ident_buf :: "string \<Rightarrow> string" where
  "ident_buf s = map to_lower (take (NAME_LEN - 1) (takeWhile is_func_char_local s))"

definition operator_of :: "char \<Rightarrow> CalcTokType \<Rightarrow> nat \<Rightarrow> OpKind" where
  "operator_of c prev count =
     (if c = CHR ''+'' then OP_ADD
      else if c = CHR ''-'' then
        (if prev = CALC_T_OPERATOR \<or> prev = CALC_T_LPAREN \<or> prev = CALC_T_COMMA \<or> count = 0
         then OP_UNARY_MINUS else OP_SUB)
      else if c = CHR ''*'' then OP_MUL
      else if c = CHR ''/'' then OP_DIV
      else if c = CHR ''^'' then OP_POW
      else if c = CHR ''!'' then OP_FACT
      else OP_PERCENT)"

lemma strtod_consumes: "strtod M s = Some (v, en, k) \<Longrightarrow> 0 < k"
  by (auto simp: strtod_def Let_def split: if_splits prod.splits list.splits)

lemma ident_buf_consumes: "is_func_char_local c \<Longrightarrow> 0 < length (ident_buf (c # cs))"
  by (simp add: ident_buf_def NAME_LEN_def)

text \<open>
  The loop of \<open>tokenize_local\<close>, on the text from \<open>s[i]\<close> on, with \<open>prev\<close> and the
  tokens written so far (\<open>out->count\<close> is their number).
\<close>

function tokenize_loop ::
  "machine \<Rightarrow> string \<Rightarrow> CalcTokType \<Rightarrow> CalcToken list \<Rightarrow> calc_error + CalcToken list" where
  "tokenize_loop M [] prev out = Inr out"
| "tokenize_loop M (c # cs) prev out =
     (if (of_char c :: nat) \<le> 32 then tokenize_loop M cs prev out
      else if is_digit c \<or> c = CHR ''.'' then
        (case strtod M (c # cs) of
           None \<Rightarrow> Inl InvalidNumber
         | Some (v, en, k) \<Rightarrow>
             if en = ERANGE then Inl NumberOutOfRange
             else tokenize_loop M (drop k (c # cs)) CALC_T_NUMBER (out @ [Number v]))
      else if is_func_char_local c then
        (let buf = ident_buf (c # cs); rest = drop (length buf) (c # cs)
         in case is_func_name_local buf of
              Some ar \<Rightarrow> tokenize_loop M rest CALC_T_FUNC (out @ [Func buf ar])
            | None \<Rightarrow> tokenize_loop M rest CALC_T_IDENT (out @ [Ident buf]))
      else if c = CHR ''('' then tokenize_loop M cs CALC_T_LPAREN (out @ [LParen])
      else if c = CHR '')'' then tokenize_loop M cs CALC_T_RPAREN (out @ [RParen])
      else if c = CHR '','' then tokenize_loop M cs CALC_T_COMMA (out @ [Comma])
      else if c = CHR ''+'' \<or> c = CHR ''-'' \<or> c = CHR ''*'' \<or> c = CHR ''/'' \<or> c = CHR ''^''
              \<or> c = CHR ''!'' \<or> c = CHR ''%'' then
        tokenize_loop M cs CALC_T_OPERATOR (out @ [Operator (operator_of c prev (length out))])
      else Inl (UnrecognizedCharacter c))"
  by pat_completeness auto
termination
  apply (relation "measure (\<lambda>(M, s, prev, out). length s)")
  apply simp_all
  subgoal for M c cs x2 v y en k
    using strtod_consumes [of M "c # cs" v en k] by auto
  subgoal for c cs
    using ident_buf_consumes [of c cs] by auto
  subgoal for c cs
    using ident_buf_consumes [of c cs] by auto
  done

definition tokenize_local :: "machine \<Rightarrow> string \<Rightarrow> calc_error + CalcToken list" where
  "tokenize_local M s = tokenize_loop M s CALC_T_OPERATOR []"

section \<open>The parser: infix to postfix\<close>

text \<open>
  The operator stack is a list with its top at the head; the output grows at its end.
  Each inner \<open>while\<close> of \<open>to_rpn_local\<close> is one function on the pair of them.
\<close>

text \<open>The operator branch: pop operators that bind at least as tightly.\<close>

fun pop_operators ::
  "OpKind \<Rightarrow> CalcToken list \<Rightarrow> CalcToken list \<Rightarrow> CalcToken list \<times> CalcToken list" where
  "pop_operators op (Operator o2 # opstack) out =
     (let p1 = precedence_local op; p2 = precedence_local o2
      in if (\<not> is_right_assoc_local op \<and> p1 \<le> p2) \<or> (is_right_assoc_local op \<and> p1 < p2)
         then pop_operators op opstack (out @ [Operator o2])
         else (Operator o2 # opstack, out))"
| "pop_operators op opstack out = (opstack, out)"

text \<open>The comma branch: pop until a left parenthesis is on top; \<open>found\<close> comes first.\<close>

fun pop_to_lparen ::
  "CalcToken list \<Rightarrow> CalcToken list \<Rightarrow> bool \<times> CalcToken list \<times> CalcToken list" where
  "pop_to_lparen [] out = (False, [], out)"
| "pop_to_lparen (LParen # opstack) out = (True, LParen # opstack, out)"
| "pop_to_lparen (t # opstack) out = pop_to_lparen opstack (out @ [t])"

text \<open>The right parenthesis branch: pop while the top is no left parenthesis.\<close>

fun pop_until_lparen ::
  "CalcToken list \<Rightarrow> CalcToken list \<Rightarrow> CalcToken list \<times> CalcToken list" where
  "pop_until_lparen [] out = ([], out)"
| "pop_until_lparen (LParen # opstack) out = (LParen # opstack, out)"
| "pop_until_lparen (t # opstack) out = pop_until_lparen opstack (out @ [t])"

text \<open>The last loop: pop everything; a parenthesis left on the stack is an error.\<close>

fun pop_rest :: "CalcToken list \<Rightarrow> CalcToken list \<Rightarrow> calc_error + CalcToken list" where
  "pop_rest [] out = Inr out"
| "pop_rest (LParen # opstack) out = Inl MismatchedParen"
| "pop_rest (RParen # opstack) out = Inl MismatchedParen"
| "pop_rest (t # opstack) out = pop_rest opstack (out @ [t])"

fun to_rpn_loop ::
  "CalcToken list \<Rightarrow> CalcToken list \<Rightarrow> CalcToken list \<Rightarrow> calc_error + CalcToken list" where
  "to_rpn_loop [] opstack out = pop_rest opstack out"
| "to_rpn_loop (Number v # tks) opstack out = to_rpn_loop tks opstack (out @ [Number v])"
| "to_rpn_loop (Ident nm # tks) opstack out = to_rpn_loop tks opstack (out @ [Ident nm])"
| "to_rpn_loop (Func nm ar # tks) opstack out = to_rpn_loop tks (Func nm ar # opstack) out"
| "to_rpn_loop (Operator op # tks) opstack out =
     (let (opstack', out') = pop_operators op opstack out
      in to_rpn_loop tks (Operator op # opstack') out')"
| "to_rpn_loop (LParen # tks) opstack out = to_rpn_loop tks (LParen # opstack) out"
| "to_rpn_loop (Comma # tks) opstack out =
     (let (found, opstack', out') = pop_to_lparen opstack out
      in if \<not> found then Inl MismatchedComma else to_rpn_loop tks opstack' out')"
| "to_rpn_loop (RParen # tks) opstack out =
     (let (opstack', out') = pop_until_lparen opstack out
      in case opstack' of
           [] \<Rightarrow> Inl MismatchedParen
         | lp # below \<Rightarrow>
             (case below of
                Func nm ar # below' \<Rightarrow> to_rpn_loop tks below' (out' @ [Func nm ar])
              | _ \<Rightarrow> to_rpn_loop tks below out'))"

definition to_rpn_local :: "CalcToken list \<Rightarrow> calc_error + CalcToken list" where
  "to_rpn_local inp = to_rpn_loop inp [] []"

section \<open>The evaluator\<close>

text \<open>The arity-1 dispatch on the function's name.\<close>

definition apply_func1 ::
  "machine \<Rightarrow> calc_state \<Rightarrow> string \<Rightarrow> double \<Rightarrow> calc_error + double" where
  "apply_func1 M st nm x =
     (if nm = ''sin'' then Inr (c_sin M (to_radian M st x))
      else if nm = ''cos'' then Inr (c_cos M (to_radian M st x))
      else if nm = ''tan'' then Inr (c_tan M (to_radian M st x))
      else if nm = ''asin'' then Inr (from_radian M st (c_asin M x))
      else if nm = ''acos'' then Inr (from_radian M st (c_acos M x))
      else if nm = ''atan'' then Inr (from_radian M st (c_atan M x))
      else if nm = ''sqrt'' then
        (if dlt x (Fin 0) then Inl SqrtDomainError else Inr (c_sqrt M x))
      else if nm = ''ln'' then
        (if dle x (Fin 0) then Inl LnDomainError else Inr (c_log M x))
      else if nm = ''log'' then
        (if dle x (Fin 0) then Inl Log10DomainError else Inr (c_log10 M x))
      else if nm = ''abs'' then Inr (fabs x)
      else if nm = ''exp'' then Inr (c_exp M x)
      else Inl UnknownFunction)"

text \<open>The binary operators, on the right operand \<open>b\<close> (popped first) and the left \<open>a\<close>.\<close>

fun apply_binary :: "machine \<Rightarrow> OpKind \<Rightarrow> double \<Rightarrow> double \<Rightarrow> calc_error + double" where
  "apply_binary M OP_ADD a b = Inr (dadd M a b)"
| "apply_binary M OP_SUB a b = Inr (dsub M a b)"
| "apply_binary M OP_MUL a b = Inr (dmul M a b)"
| "apply_binary M OP_DIV a b =
     (if deq b (Fin 0) then Inl DivisionByZero else Inr (ddiv M a b))"
| "apply_binary M OP_POW a b =
     (let (y, en) = c_pow M a b
      in if en = EDOM \<or> en = ERANGE then Inl PowDomainOrRangeError else Inr y)"
| "apply_binary M op a b = Inl UnknownOperation"

text \<open>
  One turn of the loop of \<open>eval_rpn_local\<close>: the stack \<open>st[0..sp-1]\<close> is a list with
  its top at the head, \<open>sp\<close> its length.
\<close>

fun eval_token ::
  "machine \<Rightarrow> calc_state \<Rightarrow> CalcToken \<Rightarrow> double list \<Rightarrow> calc_error + double list" where
  "eval_token M st (Number v) stk =
     (if MAX_STACK \<le> length stk then Inl StackOverflow else Inr (v # stk))"
| "eval_token M st (Ident nm) stk =
     (if nm = ''ans'' then
        (if MAX_STACK \<le> length stk then Inl StackOverflow
         else Inr (g_last_result st # stk))
      else
        (case var_get (g_vars st) nm of
           None \<Rightarrow> Inl (UndefinedVariable nm)
         | Some v \<Rightarrow>
             if MAX_STACK \<le> length stk then Inl StackOverflow else Inr (v # stk)))"
| "eval_token M st (Operator op) stk =
     (if is_postfix_local op then
        (case stk of
           [] \<Rightarrow> Inl MissingOperand
         | a # s \<Rightarrow>
             if op = OP_FACT then
               (if \<not> factorial_ok_local M a then Inl FactorialDomainError
                else Inr (factorial_val_local M a # s))
             else if op = OP_PERCENT then Inr (dmul M a (lit M 0.01) # s)
             else Inr s)
      else if op = OP_UNARY_MINUS then
        (case stk of
           [] \<Rightarrow> Inl MissingOperandUnary
         | a # s \<Rightarrow> Inr (dneg a # s))
      else
        (case stk of
           b # a # s \<Rightarrow>
             (case apply_binary M op a b of Inl e \<Rightarrow> Inl e | Inr y \<Rightarrow> Inr (y # s))
         | _ \<Rightarrow> Inl MissingOperandBinary))"
| "eval_token M st (Func nm ar) stk =
     (if ar = 1 then
        (case stk of
           [] \<Rightarrow> Inl FuncMissingArgument
         | x # s \<Rightarrow>
             (case apply_func1 M st nm x of Inl e \<Rightarrow> Inl e | Inr y \<Rightarrow> Inr (y # s)))
      else if ar = 2 then
        (if nm \<noteq> ''pow'' then Inl UnknownMultiArgFunction
         else
           (case stk of
              b # a # s \<Rightarrow>
                (let (y2, en) = c_pow M a b
                 in if en = EDOM \<or> en = ERANGE then Inl PowFuncDomainOrRangeError
                    else Inr (y2 # s))
            | _ \<Rightarrow> Inl PowNeedsTwoArgs))
      else Inl UnsupportedArity)"
| "eval_token M st tk stk = Inl IllegalRpnToken"

fun eval_rpn_loop ::
  "machine \<Rightarrow> calc_state \<Rightarrow> CalcToken list \<Rightarrow> double list \<Rightarrow> calc_error + double list" where
  "eval_rpn_loop M st [] stk = Inr stk"
| "eval_rpn_loop M st (tk # tks) stk =
     (case eval_token M st tk stk of
        Inl e \<Rightarrow> Inl e
      | Inr stk' \<Rightarrow> eval_rpn_loop M st tks stk')"

definition eval_rpn_local ::
  "machine \<Rightarrow> calc_state \<Rightarrow> CalcToken list \<Rightarrow> calc_error + double" where
  "eval_rpn_local M st rpn =
     (case eval_rpn_loop M st rpn [] of
        Inl e \<Rightarrow> Inl e
      | Inr stk \<Rightarrow> (case stk of [v] \<Rightarrow> Inr v | _ \<Rightarrow> Inl (MalformedExpression (length stk))))"

definition eval_expr_local ::
  "machine \<Rightarrow> calc_state \<Rightarrow> string \<Rightarrow> calc_error + double" where
  "eval_expr_local M st expr =
     (case tokenize_local M expr of
        Inl e \<Rightarrow> Inl e
      | Inr tks \<Rightarrow>
          (case to_rpn_local tks of
             Inl e \<Rightarrow> Inl e
           | Inr rpn \<Rightarrow> eval_rpn_local M st rpn))"

text \<open>
  \<open>eval_with_var\<close>: the result of the evaluation, and the globals after the binding was
  taken back (only \<open>g_vars\<close> is written).
\<close>

definition eval_with_var ::
  "machine \<Rightarrow> calc_state \<Rightarrow> string \<Rightarrow> string \<Rightarrow> double
     \<Rightarrow> (calc_error + double) \<times> calc_state" where
  "eval_with_var M st expr vname x =
     (let existed = var_get (g_vars st) vname;
          st1 = st\<lparr>g_vars := snd (var_set (g_vars st) vname x)\<rparr>;
          ok = eval_expr_local M st1 expr;
          st2 = (case existed of
                   Some old \<Rightarrow> st1\<lparr>g_vars := snd (var_set (g_vars st1) vname old)\<rparr>
                 | None \<Rightarrow> st1\<lparr>g_vars := snd (var_del (g_vars st1) vname)\<rparr>)
      in (ok, st2))"

section \<open>Numeric methods\<close>

text \<open>
  Each routine threads the globals through its calls of \<open>eval_with_var\<close>. The C \<open>int\<close>
  arguments are integers; no counter below leaves the range of \<open>int\<close>, except that
  \<open>n++\<close> in \<open>integ_simpson\<close> is undefined in C for \<open>n = INT_MAX\<close>.
\<close>

definition INT_MAX :: int where
  "INT_MAX = 2147483647"

definition diff_center ::
  "machine \<Rightarrow> calc_state \<Rightarrow> string \<Rightarrow> string \<Rightarrow> double \<Rightarrow> double \<Rightarrow> double \<times> calc_state" where
  "diff_center M st expr v x h =
     (case eval_with_var M st expr v (dadd M x h) of
        (Inl e, st1) \<Rightarrow> (NaN, st1)
      | (Inr f1, st1) \<Rightarrow>
          (case eval_with_var M st1 expr v (dsub M x h) of
             (Inl e, st2) \<Rightarrow> (NaN, st2)
           | (Inr f2, st2) \<Rightarrow> (ddiv M (dsub M f1 f2) (dmul M (Fin 2) h), st2)))"

text \<open>The loop of \<open>solve_newton\<close>, from iteration \<open>k\<close> with the iterate \<open>x\<close>.\<close>

function solve_newton_loop ::
  "machine \<Rightarrow> calc_state \<Rightarrow> string \<Rightarrow> string \<Rightarrow> int \<Rightarrow> double \<Rightarrow> int \<Rightarrow> double
     \<Rightarrow> (calc_error + double) \<times> calc_state" where
  "solve_newton_loop M st expr v maxit tol k x =
     (if k < maxit then
        (case eval_with_var M st expr v x of
           (Inl e, st1) \<Rightarrow> (Inl e, st1)
         | (Inr fx, st1) \<Rightarrow>
             (case diff_center M st1 expr v x (lit M (1 / 10 ^ 6)) of
                (dfx, st2) \<Rightarrow>
                  if \<not> isfinite dfx \<or> deq dfx (Fin 0)
                  then (Inl (ZeroOrNonFiniteDerivative x), st2)
                  else if dlt (fabs fx) tol
                  then (Inr (dsub M x (ddiv M fx dfx)), st2)
                  else solve_newton_loop M st2 expr v maxit tol (k + 1)
                         (dsub M x (ddiv M fx dfx))))
      else (Inl (DidNotConverge maxit), st))"
  by pat_completeness auto
termination
  by (relation "measure (\<lambda>(M, st, expr, v, maxit, tol, k, x). nat (maxit - k))") auto

declare solve_newton_loop.simps [simp del]

definition solve_newton ::
  "machine \<Rightarrow> calc_state \<Rightarrow> string \<Rightarrow> string \<Rightarrow> double \<Rightarrow> int \<Rightarrow> double
     \<Rightarrow> (calc_error + double) \<times> calc_state" where
  "solve_newton M st expr v x0 maxit tol = solve_newton_loop M st expr v maxit tol 0 x0"

text \<open>The loop of \<open>integ_simpson\<close> over the interior points, from \<open>i\<close> with the sum \<open>s\<close>.\<close>

function simpson_loop ::
  "machine \<Rightarrow> calc_state \<Rightarrow> string \<Rightarrow> string \<Rightarrow> double \<Rightarrow> double \<Rightarrow> int \<Rightarrow> int \<Rightarrow> double
     \<Rightarrow> (calc_error + double) \<times> calc_state" where
  "simpson_loop M st expr v a h n i s =
     (if i < n then
        (case eval_with_var M st expr v (dadd M a (dmul M (of_c_int i) h)) of
           (Inl e, st1) \<Rightarrow> (Inl e, st1)
         | (Inr fx, st1) \<Rightarrow>
             simpson_loop M st1 expr v a h n (i + 1)
               (dadd M s (if i mod 2 \<noteq> 0 then dmul M (Fin 4) fx else dmul M (Fin 2) fx)))
      else (Inr s, st))"
  by pat_completeness auto
termination
  by (relation "measure (\<lambda>(M, st, expr, v, a, h, n, i, s). nat (n - i))") auto

declare simpson_loop.simps [simp del]

definition simpson_segments :: "int \<Rightarrow> int" where
  "simpson_segments n =
     (let n1 = (if n \<le> 0 then 200 else n) in if n1 mod 2 \<noteq> 0 then n1 + 1 else n1)"

definition integ_simpson ::
  "machine \<Rightarrow> calc_state \<Rightarrow> string \<Rightarrow> string \<Rightarrow> double \<Rightarrow> double \<Rightarrow> int
     \<Rightarrow> (calc_error + double) \<times> calc_state" where
  "integ_simpson M st expr v a b n0 =
     (let n = simpson_segments n0;
          h = ddiv M (dsub M b a) (of_c_int n)
      in case eval_with_var M st expr v a of
           (Inl e, st1) \<Rightarrow> (Inl e, st1)
         | (Inr fa, st1) \<Rightarrow>
             (case simpson_loop M st1 expr v a h n 1 (dadd M (Fin 0) fa) of
                (Inl e, st2) \<Rightarrow> (Inl e, st2)
              | (Inr s, st2) \<Rightarrow>
                  (case eval_with_var M st2 expr v b of
                     (Inl e, st3) \<Rightarrow> (Inl e, st3)
                   | (Inr fb, st3) \<Rightarrow>
                       (Inr (ddiv M (dmul M (dadd M s fb) h) (Fin 3)), st3))))"





section \<open>Evaluating the engine on concrete text\<close>

lemmas lex_eval =
  tokenize_local_def strtod_def exponent_part_def is_digit_def is_alpha_def
  is_func_char_local_def digit_val_def digits_val_def pow10_def ident_buf_def
  operator_of_def is_func_name_local_def NAME_LEN_def to_lower_def Let_def

lemmas parse_eval =
  to_rpn_local_def is_right_assoc_local_def is_postfix_local_def

lemmas exact_eval =
  exact_def conv_exact_def rnd_exact_def DBL_MAX_def ranged_def is_integral_def lit_def

lemmas engine_eval =
  lex_eval parse_eval eval_rpn_local_def eval_expr_local_def MAX_STACK_def exact_eval

section \<open>Prefix negation and the power operator\<close>

text \<open>
  Claim C1. With unary minus at precedence 4 and the power operator at precedence 3, the
  claim has \<open>-3^2\<close> evaluate to -9 and \<open>(-3)^2\<close> to 9. The parser does otherwise: when
  the power operator arrives, the unary minus on the stack has the higher precedence and
  is popped to the output first, so the postfix form of \<open>-a^b\<close> negates \<open>a\<close> and then
  raises to the power \<open>b\<close>. Both texts evaluate to 9.
\<close>

theorem neg_pow_evaluates_to_9:
  "to_rpn_local [Operator OP_UNARY_MINUS, Number a, Operator OP_POW, Number b]
     = Inr [Number a, Operator OP_UNARY_MINUS, Number b, Operator OP_POW]
   \<and> tokenize_local exact ''-3^2''
     = Inr [Operator OP_UNARY_MINUS, Number (Fin 3), Operator OP_POW, Number (Fin 2)]
   \<and> eval_expr_local exact st ''-3^2'' = Inr (Fin 9)
   \<and> eval_expr_local exact st ''(-3)^2'' = Inr (Fin 9)"
proof -
  have rpn: "to_rpn_local [Operator OP_UNARY_MINUS, Number a, Operator OP_POW, Number b]
     = Inr [Number a, Operator OP_UNARY_MINUS, Number b, Operator OP_POW]"
    by (simp add: parse_eval)
  have lex: "tokenize_local exact ''-3^2''
     = Inr [Operator OP_UNARY_MINUS, Number (Fin 3), Operator OP_POW, Number (Fin 2)]"
    by (simp add: lex_eval exact_eval)
  have e1: "eval_expr_local exact st ''-3^2'' = Inr (Fin 9)"
    by (simp add: engine_eval)
  have e2: "eval_expr_local exact st ''(-3)^2'' = Inr (Fin 9)"
    by (simp add: engine_eval)
  from rpn lex e1 e2 show ?thesis by blast
qed

section \<open>Identifiers longer than the name buffer\<close>

text \<open>
  Claim C3. The claim has an identifier of more than 15 characters lexed as one
  Identifier token holding its first 15 characters, nothing coming of the rest. The
  inner loop of the lexer stops after 15 characters and leaves the position at the 16th,
  so the outer loop lexes the rest of the run as further tokens: a run of 20 letters
  gives two identifiers, and a tail that spells a function name gives a function token.
\<close>

theorem long_identifier_is_split:
  "tokenize_local M ''abcdefghijklmnopqrst''
     = Inr [Ident ''abcdefghijklmno'', Ident ''pqrst'']
   \<and> tokenize_local M ''Velocity_of_the_sin''
     = Inr [Ident ''velocity_of_the'', Ident ''_sin'']
   \<and> tokenize_local M ''abcdefghijklmnosin''
     = Inr [Ident ''abcdefghijklmno'', Func ''sin'' 1]"
proof -
  have a: "tokenize_local M ''abcdefghijklmnopqrst''
     = Inr [Ident ''abcdefghijklmno'', Ident ''pqrst'']"
    by (simp add: lex_eval)
  have b: "tokenize_local M ''Velocity_of_the_sin''
     = Inr [Ident ''velocity_of_the'', Ident ''_sin'']"
    by (simp add: lex_eval)
  have c: "tokenize_local M ''abcdefghijklmnosin''
     = Inr [Ident ''abcdefghijklmno'', Func ''sin'' 1]"
    by (simp add: lex_eval)
  from a b c show ?thesis by blast
qed

section \<open>The binary arithmetic operators\<close>

text \<open>
  Claim C9. On a stack holding the right operand \<open>b\<close> above the left operand \<open>a\<close>, the
  division operator fails with the division-by-zero error exactly when \<open>b == 0.0\<close>, and
  otherwise replaces the two by \<open>a / b\<close>; addition, subtraction and multiplication
  always replace them by their result. The text \<open>1/0\<close> evaluates to that error, not to
  an infinity.
\<close>

theorem div_by_zero_only_failure:
  "eval_token M st (Operator OP_DIV) (b # a # s)
     = (if deq b (Fin 0) then Inl DivisionByZero else Inr (ddiv M a b # s))
   \<and> eval_token M st (Operator OP_ADD) (b # a # s) = Inr (dadd M a b # s)
   \<and> eval_token M st (Operator OP_SUB) (b # a # s) = Inr (dsub M a b # s)
   \<and> eval_token M st (Operator OP_MUL) (b # a # s) = Inr (dmul M a b # s)
   \<and> eval_expr_local exact st ''1/0'' = Inl DivisionByZero"
proof -
  have "eval_expr_local exact st ''1/0'' = Inl DivisionByZero"
    by (simp add: engine_eval)
  then show ?thesis by (simp add: is_postfix_local_def)
qed

section \<open>The variable table under a transient binding\<close>

text \<open>
  What the table holds: slot by slot, the name and value of a slot in use. Slots that
  are not in use keep stale bytes, which no function of the program reads.
\<close>

definition live_vars :: "VarItem list \<Rightarrow> (string \<times> double) option list" where
  "live_vars vs = map (\<lambda>v. if in_use v then Some (var_name v, var_value v) else None) vs"

lemma var_get_Nil [simp]: "var_get [] nm = None"
  by (simp add: var_get_def)

lemma var_get_Cons [simp]:
  "var_get (v # vs) nm = (if in_use v \<and> var_name v = nm then Some (var_value v) else var_get vs nm)"
  by (cases "var_find_index vs nm") (simp_all add: var_get_def)

lemma var_find_index_less: "var_find_index vs nm = Some i \<Longrightarrow> i < length vs"
  by (induction vs arbitrary: i) (auto split: if_splits)

lemma var_find_index_hit:
  "var_find_index vs nm = Some i \<Longrightarrow> in_use (vs ! i) \<and> var_name (vs ! i) = nm"
  by (induction vs arbitrary: i) (auto split: if_splits)

lemma first_free_less: "first_free vs = Some j \<Longrightarrow> j < length vs \<and> \<not> in_use (vs ! j)"
  by (induction vs arbitrary: j) (auto split: if_splits)

lemma var_find_index_live:
  "live_vars vs = live_vars vs' \<Longrightarrow> var_find_index vs nm = var_find_index vs' nm"
proof (induction vs arbitrary: vs')
  case Nil
  then show ?case by (simp add: live_vars_def)
next
  case (Cons v vs)
  then obtain w ws where vs': "vs' = w # ws" by (cases vs') (auto simp: live_vars_def)
  with Cons.prems have hd: "(if in_use v then Some (var_name v, var_value v) else None)
      = (if in_use w then Some (var_name w, var_value w) else None)"
    and tl: "live_vars vs = live_vars ws" by (simp_all add: live_vars_def)
  from Cons.IH [OF tl] hd show ?case unfolding vs' by (auto split: if_splits)
qed

lemma var_get_live:
  "live_vars vs = live_vars vs' \<Longrightarrow> var_get vs nm = var_get vs' nm"
proof (induction vs arbitrary: vs')
  case Nil
  then show ?case by (simp add: live_vars_def)
next
  case (Cons v vs)
  then obtain w ws where vs': "vs' = w # ws" by (cases vs') (auto simp: live_vars_def)
  with Cons.prems have hd: "(if in_use v then Some (var_name v, var_value v) else None)
      = (if in_use w then Some (var_name w, var_value w) else None)"
    and tl: "live_vars vs = live_vars ws" by (simp_all add: live_vars_def)
  from Cons.IH [OF tl] hd show ?case unfolding vs' by (auto split: if_splits)
qed

lemma first_free_live:
  "live_vars vs = live_vars vs' \<Longrightarrow> first_free vs = first_free vs'"
proof (induction vs arbitrary: vs')
  case Nil
  then show ?case by (simp add: live_vars_def)
next
  case (Cons v vs)
  then obtain w ws where vs': "vs' = w # ws" by (cases vs') (auto simp: live_vars_def)
  with Cons.prems have hd: "(if in_use v then Some (var_name v, var_value v) else None)
      = (if in_use w then Some (var_name w, var_value w) else None)"
    and tl: "live_vars vs = live_vars ws" by (simp_all add: live_vars_def)
  from Cons.IH [OF tl] hd show ?case unfolding vs' by (auto split: if_splits)
qed

lemma live_vars_update:
  "live_vars (vs[i := w]) = (live_vars vs)[i := (if in_use w then Some (var_name w, var_value w) else None)]"
  by (simp add: live_vars_def map_update)

lemma length_live_vars [simp]: "length (live_vars vs) = length vs"
  by (simp add: live_vars_def)

lemma live_vars_nth:
  "i < length vs \<Longrightarrow> live_vars vs ! i = (if in_use (vs ! i) then Some (var_name (vs ! i), var_value (vs ! i)) else None)"
  by (simp add: live_vars_def)

text \<open>Writing the value of a slot moves no name.\<close>

lemma var_find_index_set_value:
  "var_find_index (vs[i := (vs ! i)\<lparr>var_value := x\<rparr>]) nm = var_find_index vs nm"
proof (induction vs arbitrary: i)
  case Nil
  then show ?case by simp
next
  case (Cons v vs)
  then show ?case by (cases i) simp_all
qed

lemma var_set_restore_existing:
  assumes "var_find_index vs nm = Some i"
  shows "snd (var_set (snd (var_set vs nm x)) nm (var_value (vs ! i))) = vs"
proof -
  have i: "i < length vs" using assms by (rule var_find_index_less)
  have s1: "snd (var_set vs nm x) = vs[i := (vs ! i)\<lparr>var_value := x\<rparr>]"
    using assms by (simp add: var_set_def)
  have f2: "var_find_index (vs[i := (vs ! i)\<lparr>var_value := x\<rparr>]) nm = Some i"
    using assms by (simp add: var_find_index_set_value)
  have s2: "snd (var_set (vs[i := (vs ! i)\<lparr>var_value := x\<rparr>]) nm (var_value (vs ! i)))
      = (vs[i := (vs ! i)\<lparr>var_value := x\<rparr>])[i :=
          ((vs[i := (vs ! i)\<lparr>var_value := x\<rparr>]) ! i)\<lparr>var_value := var_value (vs ! i)\<rparr>]"
    using f2 by (simp add: var_set_def)
  show ?thesis
    unfolding s1 s2 using i by (simp add: list_update_same_conv)
qed

lemma var_find_index_new:
  "var_find_index vs nm = None \<Longrightarrow> j < length vs \<Longrightarrow>
   var_find_index (vs[j := \<lparr>var_name = nm, var_value = x, in_use = True\<rparr>]) nm = Some j"
proof (induction vs arbitrary: j)
  case Nil
  then show ?case by simp
next
  case (Cons v vs)
  then show ?case by (cases j) (auto split: if_splits)
qed

lemma var_set_del_fresh:
  assumes nf: "var_find_index vs nm = None" and len: "length nm < NAME_LEN"
  shows "live_vars (snd (var_del (snd (var_set vs nm x)) nm)) = live_vars vs"
proof (cases "first_free vs")
  case None
  then show ?thesis using nf by (simp add: var_set_def var_del_def)
next
  case (Some j)
  then have j: "j < length vs" and free: "\<not> in_use (vs ! j)"
    using first_free_less by blast+
  have tk: "take (NAME_LEN - Suc 0) nm = nm" using len by simp
  have s1: "snd (var_set vs nm x) = vs[j := \<lparr>var_name = nm, var_value = x, in_use = True\<rparr>]"
    using nf Some by (simp add: var_set_def tk)
  have f2: "var_find_index (vs[j := \<lparr>var_name = nm, var_value = x, in_use = True\<rparr>]) nm = Some j"
    using nf j by (rule var_find_index_new)
  have "live_vars vs ! j = None" using j free by (simp add: live_vars_nth)
  then have "(live_vars vs)[j := None] = live_vars vs"
    using j by (metis list_update_id)
  moreover have "snd (var_del (vs[j := \<lparr>var_name = nm, var_value = x, in_use = True\<rparr>]) nm)
      = (vs[j := \<lparr>var_name = nm, var_value = x, in_use = True\<rparr>])[j :=
          \<lparr>var_name = [], var_value = x, in_use = False\<rparr>]"
    using f2 j by (simp add: var_del_def)
  ultimately show ?thesis
    unfolding s1 using j by (simp add: live_vars_update)
qed


definition same_globals :: "calc_state \<Rightarrow> calc_state \<Rightarrow> bool" where
  "same_globals st st' =
     (g_mode st' = g_mode st \<and> g_last_result st' = g_last_result st
      \<and> live_vars (g_vars st') = live_vars (g_vars st))"

lemma var_get_None_iff: "var_get vs nm = None \<longleftrightarrow> var_find_index vs nm = None"
  by (simp add: var_get_def)

lemma var_get_Some_index:
  "var_get vs nm = Some old \<Longrightarrow> \<exists>i. var_find_index vs nm = Some i \<and> old = var_value (vs ! i)"
  by (auto simp: var_get_def)

lemma eval_with_var_restores:
  assumes len: "length vname < NAME_LEN"
  shows "same_globals st (snd (eval_with_var M st expr vname x))"
proof (cases "var_get (g_vars st) vname")
  case None
  then have nf: "var_find_index (g_vars st) vname = None" by (simp add: var_get_None_iff)
  show ?thesis
    using None var_set_del_fresh [OF nf len, of x]
    by (simp add: eval_with_var_def Let_def same_globals_def)
next
  case (Some old)
  then obtain i where i: "var_find_index (g_vars st) vname = Some i"
    and old: "old = var_value (g_vars st ! i)"
    using var_get_Some_index by blast
  show ?thesis
    using Some var_set_restore_existing [OF i, of x] old
    by (simp add: eval_with_var_def Let_def same_globals_def)
qed

lemma eval_with_var_existing_exact:
  assumes "var_get (g_vars st) vname = Some old"
  shows "snd (eval_with_var M st expr vname x) = st"
proof -
  obtain i where i: "var_find_index (g_vars st) vname = Some i"
    and old: "old = var_value (g_vars st ! i)"
    using assms var_get_Some_index by blast
  show ?thesis
    using assms var_set_restore_existing [OF i, of x] old
    by (simp add: eval_with_var_def Let_def)
qed

lemma var_get_update_other:
  "i < length vs \<Longrightarrow> \<not> (in_use w \<and> var_name w = nm) \<Longrightarrow>
   \<not> (in_use (vs ! i) \<and> var_name (vs ! i) = nm) \<Longrightarrow>
   var_get (vs[i := w]) nm = var_get vs nm"
proof (induction vs arbitrary: i)
  case Nil
  then show ?case by simp
next
  case (Cons v vs)
  then show ?case by (cases i) auto
qed

lemma var_get_var_set_other:
  assumes "nm \<noteq> nm'" and "nm \<noteq> take (NAME_LEN - 1) nm'"
  shows "var_get (snd (var_set vs nm' x)) nm = var_get vs nm"
proof (cases "var_find_index vs nm'")
  case (Some i)
  then have "i < length vs" and "var_name (vs ! i) = nm'"
    using var_find_index_less var_find_index_hit by blast+
  then show ?thesis
    using Some assms by (simp add: var_set_def var_get_update_other)
next
  case None
  show ?thesis
  proof (cases "first_free vs")
    case fn: None
    then show ?thesis using None by (simp add: var_set_def)
  next
    case (Some j)
    then have "j < length vs" and "\<not> in_use (vs ! j)" using first_free_less by blast+
    then show ?thesis
      using None Some assms by (simp add: var_set_def var_get_update_other)
  qed
qed

lemma eval_token_ans_indep:
  assumes "g_mode st' = g_mode st" and "g_last_result st' = g_last_result st"
    and "\<And>nm. nm \<noteq> ''ans'' \<Longrightarrow> var_get (g_vars st') nm = var_get (g_vars st) nm"
  shows "eval_token M st' tk stk = eval_token M st tk stk"
proof -
  have f: "apply_func1 M st' nm x = apply_func1 M st nm x" for nm x
    using assms(1) by (simp add: apply_func1_def to_radian_def from_radian_def)
  show ?thesis
    using assms by (cases tk) (simp_all add: f split: list.splits)
qed

lemma eval_rpn_loop_ans_indep:
  assumes "g_mode st' = g_mode st" and "g_last_result st' = g_last_result st"
    and "\<And>nm. nm \<noteq> ''ans'' \<Longrightarrow> var_get (g_vars st') nm = var_get (g_vars st) nm"
  shows "eval_rpn_loop M st' rpn stk = eval_rpn_loop M st rpn stk"
proof (induction rpn arbitrary: stk)
  case Nil
  show ?case by simp
next
  case (Cons tk rpn)
  show ?case
    by (simp add: eval_token_ans_indep [OF assms] Cons.IH split: sum.splits)
qed

lemma eval_expr_local_ans_indep:
  assumes "g_mode st' = g_mode st" and "g_last_result st' = g_last_result st"
    and "\<And>nm. nm \<noteq> ''ans'' \<Longrightarrow> var_get (g_vars st') nm = var_get (g_vars st) nm"
  shows "eval_expr_local M st' expr = eval_expr_local M st expr"
  by (simp add: eval_expr_local_def eval_rpn_local_def eval_rpn_loop_ans_indep [OF assms]
      split: sum.splits)

lemma eval_with_var_ans:
  "fst (eval_with_var M st expr ''ans'' x) = eval_expr_local M st expr"
proof -
  have "eval_expr_local M (st\<lparr>g_vars := snd (var_set (g_vars st) ''ans'' x)\<rparr>) expr
      = eval_expr_local M st expr"
    by (rule eval_expr_local_ans_indep) (simp_all add: var_get_var_set_other NAME_LEN_def)
  then show ?thesis by (simp add: eval_with_var_def Let_def)
qed

text \<open>The zeroed table, for evaluating on concrete states.\<close>

definition zero_state :: calc_state where
  "zero_state = \<lparr>g_mode = MODE_RAD, g_last_result = Fin 0, g_vars = g_vars_zero\<rparr>"

lemma var_find_index_replicate_free [simp]:
  "\<not> in_use z \<Longrightarrow> var_find_index (replicate n z) nm = None"
  by (induction n) simp_all

lemma var_get_replicate_free [simp]:
  "\<not> in_use z \<Longrightarrow> var_get (replicate n z) nm = None"
  by (simp add: var_get_def)

lemma g_vars_zero_Cons:
  "g_vars_zero = \<lparr>var_name = [], var_value = Fin 0, in_use = False\<rparr>
                 # replicate 63 \<lparr>var_name = [], var_value = Fin 0, in_use = False\<rparr>"
proof -
  have "(64::nat) = Suc 63" by simp
  then show ?thesis unfolding g_vars_zero_def MAX_VARS_def by (simp only: replicate_Suc)
qed

lemma var_set_zero:
  "length nm < NAME_LEN \<Longrightarrow>
   snd (var_set g_vars_zero nm x)
     = \<lparr>var_name = nm, var_value = x, in_use = True\<rparr>
       # replicate 63 \<lparr>var_name = [], var_value = Fin 0, in_use = False\<rparr>"
  by (simp add: g_vars_zero_Cons var_set_def)

text \<open>
  Claim C4. Every call of \<open>eval_with_var\<close> leaves the variable store as it found it,
  whether the evaluation inside succeeded or failed: every name reads as before (its
  old value if it was bound, unbound if it was not), slot by slot the table holds what
  it held, and the last-result register and the angle mode are untouched. The name is
  one the callers pass: the derivative, the solver, the integrator and the plot sampler
  copy it into \<open>char vname[NAME_LEN]\<close>, so it has at most 15 characters.
\<close>

theorem eval_with_var_restores_store:
  "length vname < NAME_LEN \<Longrightarrow>
     live_vars (g_vars (snd (eval_with_var M st expr vname x))) = live_vars (g_vars st)
     \<and> (\<forall>nm. var_get (g_vars (snd (eval_with_var M st expr vname x))) nm
               = var_get (g_vars st) nm)
     \<and> g_last_result (snd (eval_with_var M st expr vname x)) = g_last_result st
     \<and> g_mode (snd (eval_with_var M st expr vname x)) = g_mode st"
proof -
  assume "length vname < NAME_LEN"
  then have same: "same_globals st (snd (eval_with_var M st expr vname x))"
    by (rule eval_with_var_restores)
  then have lv: "live_vars (g_vars (snd (eval_with_var M st expr vname x)))
      = live_vars (g_vars st)"
    by (simp add: same_globals_def)
  have "var_get (g_vars (snd (eval_with_var M st expr vname x))) nm
      = var_get (g_vars st) nm" for nm
    using lv by (rule var_get_live)
  with same show ?thesis by (simp add: same_globals_def)
qed

theorem eval_with_var_restores_store_witness:
  "length ''x'' < NAME_LEN
   \<and> var_get (g_vars (zero_state\<lparr>g_vars := snd (var_set g_vars_zero ''x'' (Fin 5))\<rparr>)) ''x''
       = Some (Fin 5)
   \<and> var_get (g_vars (snd (eval_with_var exact
         (zero_state\<lparr>g_vars := snd (var_set g_vars_zero ''x'' (Fin 5))\<rparr>)
         ''1/0'' ''x'' (Fin 2)))) ''x'' = Some (Fin 5)
   \<and> var_get (g_vars (snd (eval_with_var exact zero_state ''x+1'' ''x'' (Fin 2)))) ''x''
       = None"
proof -
  have len: "length ''x'' < NAME_LEN" by (simp add: NAME_LEN_def)
  have bound: "var_get (g_vars (zero_state\<lparr>g_vars := snd (var_set g_vars_zero ''x'' (Fin 5))\<rparr>))
      ''x'' = Some (Fin 5)"
    by (simp add: var_set_zero [OF len])
  have free: "var_get (g_vars zero_state) ''x'' = None"
    by (simp add: zero_state_def g_vars_zero_def)
  show ?thesis
    using len bound free
      eval_with_var_restores_store [OF len, of exact
        "zero_state\<lparr>g_vars := snd (var_set g_vars_zero ''x'' (Fin 5))\<rparr>" "''1/0''" "Fin 2"]
      eval_with_var_restores_store [OF len, of exact zero_state "''x+1''" "Fin 2"]
    by simp
qed

section \<open>The identifier ans\<close>

text \<open>
  Claim C10. The identifier \<open>ans\<close> evaluates to the last-result register and the
  variable store is not consulted for it: two states that agree on the register, on the
  angle mode and on every name other than \<open>ans\<close> evaluate every expression alike,
  whatever their stores hold under the name \<open>ans\<close>; in particular a transient binding of
  \<open>ans\<close> made by \<open>eval_with_var\<close> changes no result.
\<close>

theorem ans_reads_last_result:
  "eval_token M st (Ident ''ans'') stk
     = (if MAX_STACK \<le> length stk then Inl StackOverflow else Inr (g_last_result st # stk))
   \<and> (\<forall>st'. g_mode st' = g_mode st \<and> g_last_result st' = g_last_result st
            \<and> (\<forall>nm. nm \<noteq> ''ans'' \<longrightarrow> var_get (g_vars st') nm = var_get (g_vars st) nm)
          \<longrightarrow> eval_expr_local M st' expr = eval_expr_local M st expr)
   \<and> fst (eval_with_var M st expr ''ans'' x) = eval_expr_local M st expr"
proof -
  have a: "eval_token M st (Ident ''ans'') stk
     = (if MAX_STACK \<le> length stk then Inl StackOverflow else Inr (g_last_result st # stk))"
    by simp
  have b: "\<forall>st'. g_mode st' = g_mode st \<and> g_last_result st' = g_last_result st
            \<and> (\<forall>nm. nm \<noteq> ''ans'' \<longrightarrow> var_get (g_vars st') nm = var_get (g_vars st) nm)
          \<longrightarrow> eval_expr_local M st' expr = eval_expr_local M st expr"
  proof (intro allI impI)
    fix st' :: calc_state
    assume h: "g_mode st' = g_mode st \<and> g_last_result st' = g_last_result st
            \<and> (\<forall>nm. nm \<noteq> ''ans'' \<longrightarrow> var_get (g_vars st') nm = var_get (g_vars st) nm)"
    show "eval_expr_local M st' expr = eval_expr_local M st expr"
    proof (rule eval_expr_local_ans_indep)
      show "g_mode st' = g_mode st" using h by blast
      show "g_last_result st' = g_last_result st" using h by blast
      show "var_get (g_vars st') nm = var_get (g_vars st) nm" if "nm \<noteq> ''ans''" for nm
        using h that by blast
    qed
  qed
  have c: "fst (eval_with_var M st expr ''ans'' x) = eval_expr_local M st expr"
    by (rule eval_with_var_ans)
  from a b c show ?thesis by blast
qed

theorem ans_reads_last_result_witness:
  "eval_expr_local exact
     (zero_state\<lparr>g_last_result := Fin 7, g_vars := snd (var_set g_vars_zero ''ans'' (Fin 5))\<rparr>)
     ''ans+1''
   = eval_expr_local exact (zero_state\<lparr>g_last_result := Fin 7\<rparr>) ''ans+1''
   \<and> eval_expr_local exact (zero_state\<lparr>g_last_result := Fin 7\<rparr>) ''ans+1'' = Inr (Fin 8)
   \<and> var_get (g_vars (zero_state\<lparr>g_last_result := Fin 7,
                                   g_vars := snd (var_set g_vars_zero ''ans'' (Fin 5))\<rparr>)) ''ans''
       = Some (Fin 5)"
proof -
  let ?a = "zero_state\<lparr>g_last_result := Fin 7,
                        g_vars := snd (var_set g_vars_zero ''ans'' (Fin 5))\<rparr>"
  let ?b = "zero_state\<lparr>g_last_result := Fin 7\<rparr>"
  have len: "length ''ans'' < NAME_LEN" by (simp add: NAME_LEN_def)
  have other: "var_get (g_vars ?a) nm = var_get (g_vars ?b) nm" if "nm \<noteq> ''ans''" for nm
  proof -
    have "var_get (snd (var_set g_vars_zero ''ans'' (Fin 5))) nm = var_get g_vars_zero nm"
      using that by (intro var_get_var_set_other) (simp_all add: NAME_LEN_def)
    then show ?thesis by (simp add: zero_state_def)
  qed
  have pre: "g_mode ?a = g_mode ?b \<and> g_last_result ?a = g_last_result ?b
      \<and> (\<forall>nm. nm \<noteq> ''ans'' \<longrightarrow> var_get (g_vars ?a) nm = var_get (g_vars ?b) nm)"
    using other by simp
  have val: "eval_expr_local exact ?b ''ans+1'' = Inr (Fin 8)"
    by (simp add: engine_eval)
  have bound: "var_get (g_vars ?a) ''ans'' = Some (Fin 5)"
    by (simp add: var_set_zero [OF len])
  from ans_reads_last_result [of exact ?b "[]" "''ans+1''" "Fin 0"]
  have "\<forall>st'. g_mode st' = g_mode ?b \<and> g_last_result st' = g_last_result ?b
            \<and> (\<forall>nm. nm \<noteq> ''ans'' \<longrightarrow> var_get (g_vars st') nm = var_get (g_vars ?b) nm)
          \<longrightarrow> eval_expr_local exact st' ''ans+1'' = eval_expr_local exact ?b ''ans+1''"
    by (rule conjunct1 [OF conjunct2])
  then have "eval_expr_local exact ?a ''ans+1'' = eval_expr_local exact ?b ''ans+1''"
    using pre by blast
  with val bound show ?thesis by blast
qed

section \<open>The factorial operator\<close>



lemma exact_fields [simp]:
  "rnd exact = rnd_exact" "strtod_conv exact = conv_exact" "c_pow exact = pow_exact"
  "c_exp exact = exp_exact" "c_lgamma exact = lgamma_exact"
  by (simp_all add: exact_def)








section \<open>Non-finite results\<close>

lemma eval_rpn_loop_append:
  "eval_rpn_loop M st (xs @ ys) stk
     = (case eval_rpn_loop M st xs stk of
          Inl e \<Rightarrow> Inl e
        | Inr stk' \<Rightarrow> eval_rpn_loop M st ys stk')"
  by (induction xs arbitrary: stk) (simp_all split: sum.splits)

text \<open>
  The domain violations the evaluator tests for, on the token about to be applied and
  the stack it meets.
\<close>

fun domain_violation :: "machine \<Rightarrow> CalcToken \<Rightarrow> double list \<Rightarrow> bool" where
  "domain_violation M (Operator op) (b # a # s) =
     (op = OP_DIV \<and> deq b (Fin 0)
      \<or> op = OP_FACT \<and> \<not> factorial_ok_local M b
      \<or> op = OP_POW \<and> (snd (c_pow M a b) = EDOM \<or> snd (c_pow M a b) = ERANGE))"
| "domain_violation M (Operator op) [a] = (op = OP_FACT \<and> \<not> factorial_ok_local M a)"
| "domain_violation M (Func nm ar) (x # s) =
     (ar = 1 \<and> (nm = ''sqrt'' \<and> dlt x (Fin 0) \<or> nm = ''ln'' \<and> dle x (Fin 0)
                \<or> nm = ''log'' \<and> dle x (Fin 0))
      \<or> ar = 2 \<and> nm = ''pow''
        \<and> (case s of [] \<Rightarrow> False
            | a # s' \<Rightarrow> snd (c_pow M a x) = EDOM \<or> snd (c_pow M a x) = ERANGE))"
| "domain_violation M tk stk = False"

lemma apply_func1_sqrt:
  "dlt x (Fin 0) \<Longrightarrow> apply_func1 M st ''sqrt'' x = Inl SqrtDomainError"
  by (simp add: apply_func1_def)

lemma apply_func1_ln:
  "dle x (Fin 0) \<Longrightarrow> apply_func1 M st ''ln'' x = Inl LnDomainError"
  by (simp add: apply_func1_def)

lemma apply_func1_log:
  "dle x (Fin 0) \<Longrightarrow> apply_func1 M st ''log'' x = Inl Log10DomainError"
  by (simp add: apply_func1_def)

lemma binary_violation_fails:
  assumes "op = OP_DIV \<and> deq b (Fin 0)
      \<or> op = OP_POW \<and> (snd (c_pow M a b) = EDOM \<or> snd (c_pow M a b) = ERANGE)"
  shows "\<exists>e. eval_token M st (Operator op) (b # a # s) = Inl e"
proof -
  from assms consider "op = OP_DIV" "deq b (Fin 0)"
    | "op = OP_POW" "snd (c_pow M a b) = EDOM \<or> snd (c_pow M a b) = ERANGE"
    by blast
  then show ?thesis
  proof cases
    case 1
    then show ?thesis by (simp add: is_postfix_local_def)
  next
    case 2
    then show ?thesis by (cases "c_pow M a b") (simp add: is_postfix_local_def)
  qed
qed

lemma factorial_violation_fails:
  "\<not> factorial_ok_local M a \<Longrightarrow>
   \<exists>e. eval_token M st (Operator OP_FACT) (a # s) = Inl e"
  by (simp add: is_postfix_local_def)

lemma func_violation_fails:
  assumes "ar = 1 \<and> (nm = ''sqrt'' \<and> dlt x (Fin 0) \<or> nm = ''ln'' \<and> dle x (Fin 0)
                \<or> nm = ''log'' \<and> dle x (Fin 0))
      \<or> ar = 2 \<and> nm = ''pow''
        \<and> (case s of [] \<Rightarrow> False
            | a # s' \<Rightarrow> snd (c_pow M a x) = EDOM \<or> snd (c_pow M a x) = ERANGE)"
  shows "\<exists>e. eval_token M st (Func nm ar) (x # s) = Inl e"
proof -
  from assms consider "ar = 1" "nm = ''sqrt''" "dlt x (Fin 0)"
    | "ar = 1" "nm = ''ln''" "dle x (Fin 0)"
    | "ar = 1" "nm = ''log''" "dle x (Fin 0)"
    | a s' where "ar = 2" "nm = ''pow''" "s = a # s'"
        "snd (c_pow M a x) = EDOM \<or> snd (c_pow M a x) = ERANGE"
    by (cases s) auto
  then show ?thesis
  proof cases
    case 1
    then show ?thesis by (simp add: apply_func1_sqrt)
  next
    case 2
    then show ?thesis by (simp add: apply_func1_ln)
  next
    case 3
    then show ?thesis by (simp add: apply_func1_log)
  next
    case 4
    then show ?thesis by (cases "c_pow M a x") simp
  qed
qed

lemma domain_violation_fails:
  "domain_violation M tk stk \<Longrightarrow> \<exists>e. eval_token M st tk stk = Inl e"
proof (induction M tk stk rule: domain_violation.induct)
  case (1 M op b a s)
  then have "op = OP_FACT \<and> \<not> factorial_ok_local M b
      \<or> (op = OP_DIV \<and> deq b (Fin 0)
      \<or> op = OP_POW \<and> (snd (c_pow M a b) = EDOM \<or> snd (c_pow M a b) = ERANGE))"
    by auto
  then show ?case
    using factorial_violation_fails [where M = M and a = b and st = st and s = "a # s"]
      binary_violation_fails [where op = op and b = b and M = M and a = a and st = st and s = s]
    by blast
next
  case (2 M op a)
  then show ?case using factorial_violation_fails [where M = M and a = a and st = st and s = "[]"] by simp
next
  case (3 M nm ar x s)
  then show ?case using func_violation_fails [where ar = ar and nm = nm and x = x and s = s and M = M and st = st]
    by simp
qed simp_all

lemma violation_surfaces:
  assumes "eval_rpn_loop M st pre [] = Inr stk" and "domain_violation M tk stk"
  shows "\<exists>e. eval_rpn_local M st (pre @ tk # post) = Inl e"
proof -
  from domain_violation_fails [OF assms(2)]
  obtain e where "eval_token M st tk stk = Inl e" by blast
  then have "eval_rpn_loop M st (pre @ tk # post) [] = Inl e"
    using assms(1) by (simp add: eval_rpn_loop_append)
  then show ?thesis by (simp add: eval_rpn_local_def)
qed

lemma eval_big_product: "eval_expr_local exact st ''1e200*1e200'' = Inr PInf"
  by (simp add: engine_eval)

lemma eval_asin_2: "g_mode st = MODE_RAD \<Longrightarrow> eval_expr_local exact st ''asin(2)'' = Inr NaN"
  by (simp add: engine_eval apply_func1_def from_radian_def)

text \<open>
  Claim C2 has every successful result of the pipeline finite, NaN and infinities being
  reported as errors. The evaluator tests no result for finiteness: the product
  \<open>1e200*1e200\<close> overflows and is returned as a success, and so is the NaN of
  \<open>asin(2)\<close>.
\<close>

theorem nonfinite_success_counterexample:
  "eval_expr_local exact zero_state ''1e200*1e200'' = Inr PInf \<and> \<not> isfinite PInf
   \<and> eval_expr_local exact zero_state ''asin(2)'' = Inr NaN \<and> \<not> isfinite NaN"
proof -
  have "g_mode zero_state = MODE_RAD" by (simp add: zero_state_def)
  then have "eval_expr_local exact zero_state ''asin(2)'' = Inr NaN" by (rule eval_asin_2)
  then show ?thesis by (simp add: eval_big_product)
qed

text \<open>
  Claim C2, amended. What the evaluator does report: the violations it tests for, which
  are a division by exactly zero, a factorial operand outside its domain, a power whose
  library call sets \<open>EDOM\<close> or \<open>ERANGE\<close>, the square root of a negative number and the
  logarithms of a non-positive one. Whenever a token meets such a violation on the stack
  the tokens before it have built, the whole evaluation is an error, whatever follows.
  Sums, differences and products are returned as they come, finite or not.
\<close>

theorem checked_violations_surface:
  "eval_rpn_loop M st pre [] = Inr stk \<Longrightarrow> domain_violation M tk stk \<Longrightarrow>
     (\<exists>e. eval_rpn_local M st (pre @ tk # post) = Inl e)
     \<and> eval_rpn_local M st [Number a, Number b, Operator OP_ADD] = Inr (dadd M a b)
     \<and> eval_rpn_local M st [Number a, Number b, Operator OP_SUB] = Inr (dsub M a b)
     \<and> eval_rpn_local M st [Number a, Number b, Operator OP_MUL] = Inr (dmul M a b)"
proof -
  assume "eval_rpn_loop M st pre [] = Inr stk" and "domain_violation M tk stk"
  then have "\<exists>e. eval_rpn_local M st (pre @ tk # post) = Inl e"
    by (rule violation_surfaces)
  then show ?thesis
    by (simp add: eval_rpn_local_def MAX_STACK_def is_postfix_local_def)
qed

theorem checked_violations_surface_witness:
  "eval_rpn_loop exact zero_state [Number (Fin 0), Number (Fin 1), Operator OP_SUB] []
     = Inr [Fin (- 1)]
   \<and> domain_violation exact (Func ''sqrt'' 1) [Fin (- 1)]
   \<and> (\<exists>e. eval_rpn_local exact zero_state
             [Number (Fin 0), Number (Fin 1), Operator OP_SUB, Func ''sqrt'' 1] = Inl e)"
proof -
  have pre: "eval_rpn_loop exact zero_state [Number (Fin 0), Number (Fin 1), Operator OP_SUB] []
     = Inr [Fin (- 1)]"
    by (simp add: MAX_STACK_def is_postfix_local_def dsub_def exact_eval)
  have viol: "domain_violation exact (Func ''sqrt'' 1) [Fin (- 1)]" by simp
  from checked_violations_surface [OF pre viol, of "[]" "Fin 0" "Fin 0"]
  have "\<exists>e. eval_rpn_local exact zero_state
             ([Number (Fin 0), Number (Fin 1), Operator OP_SUB] @ [Func ''sqrt'' 1]) = Inl e"
    by (rule conjunct1)
  then have "\<exists>e. eval_rpn_local exact zero_state
             [Number (Fin 0), Number (Fin 1), Operator OP_SUB, Func ''sqrt'' 1] = Inl e"
    by simp
  with pre viol show ?thesis by blast
qed

section \<open>The range-finding pass of the plot\<close>







section \<open>Repeated evaluation under a transient binding\<close>

text \<open>
  The numeric methods call \<open>eval_with_var\<close> again and again, each call starting from
  the globals the call before left. As these hold the same live entries throughout,
  every call computes what it would compute from the first state.
\<close>

lemma same_globals_refl: "same_globals st st"
  by (simp add: same_globals_def)

lemma same_globals_trans:
  "same_globals st st1 \<Longrightarrow> same_globals st1 st2 \<Longrightarrow> same_globals st st2"
  by (simp add: same_globals_def)

lemma var_set_live:
  assumes "live_vars vs = live_vars vs'"
  shows "live_vars (snd (var_set vs nm x)) = live_vars (snd (var_set vs' nm x))"
proof -
  have len: "length vs = length vs'" using assms by (metis length_live_vars)
  have fi: "var_find_index vs nm = var_find_index vs' nm"
    using assms by (rule var_find_index_live)
  have ff: "first_free vs = first_free vs'" using assms by (rule first_free_live)
  show ?thesis
  proof (cases "var_find_index vs nm")
    case (Some i)
    then have i: "i < length vs" by (rule var_find_index_less)
    have u: "in_use (vs ! i)" "var_name (vs ! i) = nm"
      using var_find_index_hit [OF Some] by simp_all
    have u': "in_use (vs' ! i)" "var_name (vs' ! i) = nm"
      using var_find_index_hit [of vs' nm i] Some fi by simp_all
    show ?thesis
      using Some fi assms u u' by (simp add: var_set_def live_vars_update)
  next
    case None
    note nf = None
    show ?thesis
    proof (cases "first_free vs")
      case None
      then have "first_free vs' = None" using ff by simp
      then show ?thesis using nf None fi assms by (simp add: var_set_def)
    next
      case (Some j)
      then have "first_free vs' = Some j" using ff by simp
      then show ?thesis using nf Some fi assms by (simp add: var_set_def live_vars_update)
    qed
  qed
qed

lemma eval_expr_local_same:
  assumes "same_globals st st'"
  shows "eval_expr_local M st' expr = eval_expr_local M st expr"
proof (rule eval_expr_local_ans_indep)
  show "g_mode st' = g_mode st" using assms by (simp add: same_globals_def)
  show "g_last_result st' = g_last_result st" using assms by (simp add: same_globals_def)
  show "var_get (g_vars st') nm = var_get (g_vars st) nm" for nm
    using assms by (intro var_get_live) (simp add: same_globals_def)
qed

lemma eval_with_var_fst:
  "fst (eval_with_var M st expr v x)
     = eval_expr_local M (st\<lparr>g_vars := snd (var_set (g_vars st) v x)\<rparr>) expr"
  by (simp add: eval_with_var_def Let_def)

lemma eval_with_var_same:
  assumes "same_globals st st'"
  shows "fst (eval_with_var M st' expr v x) = fst (eval_with_var M st expr v x)"
proof -
  have "live_vars (snd (var_set (g_vars st') v x)) = live_vars (snd (var_set (g_vars st) v x))"
    using assms by (intro var_set_live) (simp add: same_globals_def)
  then have "same_globals (st\<lparr>g_vars := snd (var_set (g_vars st) v x)\<rparr>)
                          (st'\<lparr>g_vars := snd (var_set (g_vars st') v x)\<rparr>)"
    using assms by (simp add: same_globals_def)
  then show ?thesis by (simp add: eval_with_var_fst eval_expr_local_same)
qed

text \<open>
  One call from a state that holds what the first state held: the result is that of the
  first state, and the state after holds the same again.
\<close>

lemma eval_with_var_thread:
  assumes "length v < NAME_LEN" and "same_globals st st'"
    and "eval_with_var M st' expr v x = (r, st1)"
  shows "r = fst (eval_with_var M st expr v x) \<and> same_globals st st1"
proof -
  have "r = fst (eval_with_var M st' expr v x)" using assms(3) by simp
  then have r: "r = fst (eval_with_var M st expr v x)"
    using eval_with_var_same [OF assms(2)] by simp
  have "same_globals st' (snd (eval_with_var M st' expr v x))"
    using assms(1) by (rule eval_with_var_restores)
  then have "same_globals st' st1" using assms(3) by simp
  with assms(2) have "same_globals st st1" by (rule same_globals_trans)
  with r show ?thesis by simp
qed

text \<open>The expression as a function of the bound variable, from a given state.\<close>

definition sample :: "machine \<Rightarrow> calc_state \<Rightarrow> string \<Rightarrow> string \<Rightarrow> double \<Rightarrow> calc_error + double" where
  "sample M st expr v x = fst (eval_with_var M st expr v x)"

section \<open>The Simpson integrator\<close>

text \<open>
  Simpson's rule in the words of the specification: with \<open>h = (b - a) / n\<close>, the sum
  of the integrand at \<open>a\<close>, at the interior points \<open>a + i h\<close> for \<open>i\<close> from 1 to
  \<open>n - 1\<close> with weight 4 for odd \<open>i\<close> and 2 for even \<open>i\<close>, and at \<open>b\<close>, times
  \<open>h / 3\<close>. The sum is taken in this order (floating-point addition is not
  associative), and the first evaluation that fails is the result.
\<close>

definition simpson_step ::
  "machine \<Rightarrow> (double \<Rightarrow> calc_error + double) \<Rightarrow> double \<Rightarrow> double \<Rightarrow> int
     \<Rightarrow> calc_error + double \<Rightarrow> calc_error + double" where
  "simpson_step M f a h i acc =
     (case acc of
        Inl e \<Rightarrow> Inl e
      | Inr s \<Rightarrow>
          (case f (dadd M a (dmul M (of_c_int i) h)) of
             Inl e \<Rightarrow> Inl e
           | Inr fx \<Rightarrow> Inr (dadd M s (dmul M (Fin (if odd i then 4 else 2)) fx))))"

definition simpson_rule ::
  "machine \<Rightarrow> (double \<Rightarrow> calc_error + double) \<Rightarrow> double \<Rightarrow> double \<Rightarrow> int
     \<Rightarrow> calc_error + double" where
  "simpson_rule M f a b n =
     (let h = ddiv M (dsub M b a) (of_c_int n)
      in case f a of
           Inl e \<Rightarrow> Inl e
         | Inr fa \<Rightarrow>
             (case fold (simpson_step M f a h) [1..n - 1] (Inr (dadd M (Fin 0) fa)) of
                Inl e \<Rightarrow> Inl e
              | Inr s \<Rightarrow>
                  (case f b of
                     Inl e \<Rightarrow> Inl e
                   | Inr fb \<Rightarrow> Inr (ddiv M (dmul M (dadd M s fb) h) (Fin 3)))))"

lemma fold_simpson_step_Inl: "fold (simpson_step M f a h) is (Inl e) = Inl e"
  by (induction "is") (simp_all add: simpson_step_def)

lemma simpson_loop_fold:
  assumes len: "length v < NAME_LEN"
  shows "same_globals st st' \<Longrightarrow>
     fst (simpson_loop M st' expr v a h n i s)
       = fold (simpson_step M (sample M st expr v) a h) [i..n - 1] (Inr s)
     \<and> same_globals st (snd (simpson_loop M st' expr v a h n i s))"
proof (induction "nat (n - i)" arbitrary: i st' s)
  case 0
  then have "\<not> i < n" by simp
  then show ?case using 0 by (subst (1 2) simpson_loop.simps) simp
next
  case (Suc k)
  then have lt: "i < n" and k: "k = nat (n - (i + 1))" by linarith+
  let ?x = "dadd M a (dmul M (of_c_int i) h)"
  obtain r st1 where ev: "eval_with_var M st' expr v ?x = (r, st1)"
    by (cases "eval_with_var M st' expr v ?x")
  from eval_with_var_thread [OF len Suc.prems ev]
  have r: "sample M st expr v ?x = r" and same1: "same_globals st st1"
    by (simp_all add: sample_def)
  have up: "[i..n - 1] = i # [i + 1..n - 1]" using lt by (simp add: upto_rec1)
  show ?case
  proof (cases r)
    case (Inl e)
    have f: "sample M st expr v ?x = Inl e" using r Inl by simp
    have ev': "eval_with_var M st' expr v ?x = (Inl e, st1)" using ev Inl by simp
    show ?thesis
      using lt ev' same1 f
      by (subst (1 2) simpson_loop.simps)
         (simp add: up simpson_step_def fold_simpson_step_Inl)
  next
    case (Inr fx)
    have f: "sample M st expr v ?x = Inr fx" using r Inr by simp
    have ev': "eval_with_var M st' expr v ?x = (Inr fx, st1)" using ev Inr by simp
    let ?s = "dadd M s (if i mod 2 \<noteq> 0 then dmul M (Fin 4) fx else dmul M (Fin 2) fx)"
    from Suc.hyps(1) [OF k same1, of ?s]
    have rec: "fst (simpson_loop M st1 expr v a h n (i + 1) ?s)
       = fold (simpson_step M (sample M st expr v) a h) [i + 1..n - 1] (Inr ?s)
     \<and> same_globals st (snd (simpson_loop M st1 expr v a h n (i + 1) ?s))" .
    have step: "simpson_step M (sample M st expr v) a h i (Inr s) = Inr ?s"
      using f by (simp add: simpson_step_def even_iff_mod_2_eq_zero)
    have unfold: "simpson_loop M st' expr v a h n i s
        = simpson_loop M st1 expr v a h n (i + 1) ?s"
      using lt ev' by (subst simpson_loop.simps) simp
    show ?thesis
      unfolding unfold up using rec step by simp
  qed
qed

lemma integ_simpson_rule:
  assumes len: "length v < NAME_LEN"
  shows "fst (integ_simpson M st expr v a b n)
     = simpson_rule M (sample M st expr v) a b (simpson_segments n)"
proof -
  let ?n = "simpson_segments n"
  let ?h = "ddiv M (dsub M b a) (of_c_int ?n)"
  let ?f = "sample M st expr v"
  obtain r st1 where ev1: "eval_with_var M st expr v a = (r, st1)"
    by (cases "eval_with_var M st expr v a")
  from eval_with_var_thread [OF len same_globals_refl ev1]
  have r: "?f a = r" and same1: "same_globals st st1"
    by (simp_all add: sample_def)
  show ?thesis
  proof (cases r)
    case (Inl e)
    have "?f a = Inl e" using r Inl by simp
    moreover have "eval_with_var M st expr v a = (Inl e, st1)" using ev1 Inl by simp
    ultimately show ?thesis
      by (simp add: integ_simpson_def simpson_rule_def Let_def)
  next
    case (Inr fa)
    have fa: "?f a = Inr fa" using r Inr by simp
    have ev1': "eval_with_var M st expr v a = (Inr fa, st1)" using ev1 Inr by simp
    let ?s0 = "dadd M (Fin 0) fa"
    obtain q st2 where lp: "simpson_loop M st1 expr v a ?h ?n 1 ?s0 = (q, st2)"
      by (cases "simpson_loop M st1 expr v a ?h ?n 1 ?s0")
    from simpson_loop_fold [OF len same1, of M expr a ?h ?n 1 ?s0] lp
    have q: "fold (simpson_step M ?f a ?h) [1..?n - 1] (Inr ?s0) = q"
      and same2: "same_globals st st2" by simp_all
    show ?thesis
    proof (cases q)
      case (Inl e)
      have "fold (simpson_step M ?f a ?h) [1..?n - 1] (Inr ?s0) = Inl e" using q Inl by simp
      moreover have "simpson_loop M st1 expr v a ?h ?n 1 ?s0 = (Inl e, st2)"
        using lp Inl by simp
      ultimately show ?thesis
        using fa ev1' by (simp add: integ_simpson_def simpson_rule_def Let_def)
    next
      case qr: (Inr s)
      have fq: "fold (simpson_step M ?f a ?h) [1..?n - 1] (Inr ?s0) = Inr s"
        using q qr by simp
      have lp': "simpson_loop M st1 expr v a ?h ?n 1 ?s0 = (Inr s, st2)"
        using lp qr by simp
      obtain p st3 where ev3: "eval_with_var M st2 expr v b = (p, st3)"
        by (cases "eval_with_var M st2 expr v b")
      from eval_with_var_thread [OF len same2 ev3]
      have p: "?f b = p" by (simp add: sample_def)
      show ?thesis
      proof (cases p)
        case (Inl e)
        have "?f b = Inl e" using p Inl by simp
        moreover have "eval_with_var M st2 expr v b = (Inl e, st3)" using ev3 Inl by simp
        ultimately show ?thesis
          using fa ev1' fq lp' by (simp add: integ_simpson_def simpson_rule_def Let_def)
      next
        case (Inr fb)
        have "?f b = Inr fb" using p Inr by simp
        moreover have "eval_with_var M st2 expr v b = (Inr fb, st3)" using ev3 Inr by simp
        ultimately show ?thesis
          using fa ev1' fq lp' by (simp add: integ_simpson_def simpson_rule_def Let_def)
      qed
    qed
  qed
qed

end
